theory Spec2Isabelle
  imports Main "HOL-Library.Sublist"
begin

section \<open>Lunaria: an XML element tree compiled to Luau text\<close>

text \<open>
  The development follows the Go package \<^verbatim>\<open>lunaria\<close>: the element tree
  (\<^verbatim>\<open>Node\<close>), the attribute and string helpers of \<^verbatim>\<open>helpers.go\<close>, the built-in
  handlers, and the compiler engine (\<^verbatim>\<open>compileNode\<close>, \<^verbatim>\<open>CompileFromString\<close>).

  Go strings are byte sequences; they are \<^typ>\<open>string\<close> here, one \<^typ>\<open>char\<close> per
  byte. A Go \<^verbatim>\<open>error\<close> is represented by its message, and a Go result pair
  \<^verbatim>\<open>(string, error)\<close> by a pair whose second component is \<open>None\<close> for \<^verbatim>\<open>nil\<close>.
\<close>

subsection \<open>Element tree\<close>

record xml_Name =
  Space :: string
  Local :: string

record xml_Attr =
  Name :: xml_Name
  Value :: string

datatype Node =
  Node (XMLName: xml_Name) (Attrs: "xml_Attr list") (Content: string) (Nodes: "Node list")

type_synonym error = string

subsection \<open>Functions of the Go standard library used by the package\<close>

text \<open>
  \<^verbatim>\<open>strings.TrimSpace\<close> removes leading and trailing runes for which
  \<^verbatim>\<open>unicode.IsSpace\<close> holds. On the byte level these are the following UTF-8
  encodings: the six ASCII space characters, U+0085, U+00A0, U+1680, U+2000 to U+200A,
  U+2028, U+2029, U+202F, U+205F and U+3000.
\<close>

definition spaceRunes :: "string list" where
  "spaceRunes =
     [[CHR 0x09], [CHR 0x0A], [CHR 0x0B], [CHR 0x0C], [CHR 0x0D], [CHR 0x20],
      [CHR 0xC2, CHR 0x85], [CHR 0xC2, CHR 0xA0],
      [CHR 0xE1, CHR 0x9A, CHR 0x80],
      [CHR 0xE2, CHR 0x80, CHR 0x80], [CHR 0xE2, CHR 0x80, CHR 0x81],
      [CHR 0xE2, CHR 0x80, CHR 0x82], [CHR 0xE2, CHR 0x80, CHR 0x83],
      [CHR 0xE2, CHR 0x80, CHR 0x84], [CHR 0xE2, CHR 0x80, CHR 0x85],
      [CHR 0xE2, CHR 0x80, CHR 0x86], [CHR 0xE2, CHR 0x80, CHR 0x87],
      [CHR 0xE2, CHR 0x80, CHR 0x88], [CHR 0xE2, CHR 0x80, CHR 0x89],
      [CHR 0xE2, CHR 0x80, CHR 0x8A],
      [CHR 0xE2, CHR 0x80, CHR 0xA8], [CHR 0xE2, CHR 0x80, CHR 0xA9],
      [CHR 0xE2, CHR 0x80, CHR 0xAF], [CHR 0xE2, CHR 0x81, CHR 0x9F],
      [CHR 0xE3, CHR 0x80, CHR 0x80]]"

function trimPrefixes :: "string list \<Rightarrow> string \<Rightarrow> string" where
  "trimPrefixes ps s =
     (case find (\<lambda>p. p \<noteq> [] \<and> prefix p s) ps of
        Some p \<Rightarrow> trimPrefixes ps (drop (length p) s)
      | None \<Rightarrow> s)"
  by pat_completeness auto
termination
  by (relation "measure (\<lambda>(ps, s). length s)") (auto simp: find_Some_iff prefix_def)

definition TrimSpace :: "string \<Rightarrow> string" where
  "TrimSpace s = rev (trimPrefixes (map rev spaceRunes) (rev (trimPrefixes spaceRunes s)))"

text \<open>\<^verbatim>\<open>strings.Contains\<close>, \<^verbatim>\<open>strings.Split\<close> and \<^verbatim>\<open>strings.Join\<close> with the
  one-byte separator the package uses, \<^verbatim>\<open>strings.ReplaceAll\<close> of a single byte, and
  \<^verbatim>\<open>strings.Repeat\<close>.\<close>

fun Contains :: "string \<Rightarrow> string \<Rightarrow> bool" where
  "Contains [] substr = (substr = [])"
| "Contains (c # s) substr = (prefix substr (c # s) \<or> Contains s substr)"

fun Split :: "string \<Rightarrow> char \<Rightarrow> string list" where
  "Split [] sep = [[]]"
| "Split (c # s) sep =
     (if c = sep then [] # Split s sep
      else (case Split s sep of [] \<Rightarrow> [[c]] | l # ls \<Rightarrow> (c # l) # ls))"

fun Join :: "string list \<Rightarrow> string \<Rightarrow> string" where
  "Join [] sep = []"
| "Join [x] sep = x"
| "Join (x # y # zs) sep = x @ sep @ Join (y # zs) sep"

definition ReplaceAll :: "string \<Rightarrow> char \<Rightarrow> string \<Rightarrow> string" where
  "ReplaceAll s old new = concat (map (\<lambda>c. if c = old then new else [c]) s)"

definition Repeat :: "string \<Rightarrow> nat \<Rightarrow> string" where
  "Repeat s n = concat (replicate n s)"

text \<open>
  \<^verbatim>\<open>strconv.Atoi\<close>, \<^verbatim>\<open>strconv.ParseFloat\<close> and \<^verbatim>\<open>xml.Unmarshal\<close> are not part
  of the package. The package only asks the first two whether they succeed, and takes the
  tree or the error of the third; they are parameters of the development.
\<close>

record stdlib =
  strconv_Atoi_ok :: "string \<Rightarrow> bool"
  strconv_ParseFloat_ok :: "string \<Rightarrow> bool"
  xml_Unmarshal :: "string \<Rightarrow> error + Node"

subsection \<open>Attribute helpers\<close>

definition GetAttr :: "Node \<Rightarrow> string \<Rightarrow> string" where
  "GetAttr node name =
     (case find (\<lambda>attr. Local (Name attr) = name) (Attrs node) of
        Some attr \<Rightarrow> Value attr
      | None \<Rightarrow> [])"

definition HasAttr :: "Node \<Rightarrow> string \<Rightarrow> bool" where
  "HasAttr node name = list_ex (\<lambda>attr. Local (Name attr) = name) (Attrs node)"

definition GetAttrWithDefault :: "Node \<Rightarrow> string \<Rightarrow> string \<Rightarrow> string" where
  "GetAttrWithDefault node name defaultValue =
     (let value = GetAttr node name in
      if value \<noteq> [] then value else defaultValue)"

definition GetBoolAttr :: "Node \<Rightarrow> string \<Rightarrow> bool" where
  "GetBoolAttr node name =
     (let value = GetAttr node name in
      value = ''true'' \<or> value = ''1'' \<or> value = ''yes'')"

subsection \<open>String helpers\<close>

text \<open>
  \<^verbatim>\<open>Interpolate\<close> rewrites every match of the regular expression
  \<^verbatim>\<open>\{\{([^}]+)\}\}\<close>, leftmost first and without overlap. The expression matches
  at a position exactly when the text there starts with two opening braces, followed by
  a non-empty run of bytes other than a closing brace, followed by two closing braces;
  \<open>placeholderAt\<close> returns the run and the text after the match.
\<close>

definition placeholderAt :: "string \<Rightarrow> (string \<times> string) option" where
  "placeholderAt s =
     (if prefix ''{{'' s then
        (let body = takeWhile (\<lambda>c. c \<noteq> CHR ''}'') (drop 2 s);
             rest = dropWhile (\<lambda>c. c \<noteq> CHR ''}'') (drop 2 s)
         in if body \<noteq> [] \<and> prefix ''}}'' rest then Some (body, drop 2 rest) else None)
      else None)"

function Interpolate :: "string \<Rightarrow> string" where
  \<open>Interpolate text =
     (case placeholderAt text of
        Some (body, rest) \<Rightarrow>
          (let varName = TrimSpace body
           in ''" .. tostring('' @ varName @ '') .. "'' @ Interpolate rest)
      | None \<Rightarrow> (case text of [] \<Rightarrow> [] | c # text' \<Rightarrow> c # Interpolate text'))\<close>
  by pat_completeness auto
termination
proof (relation "measure length")
  fix s :: string and x2 body rest
  assume "placeholderAt s = Some x2" and "(body, rest) = x2"
  then have p: "prefix ''{{'' s"
    and r: "rest = drop 2 (dropWhile (\<lambda>c. c \<noteq> CHR ''}'') (drop 2 s))"
    by (auto simp: placeholderAt_def Let_def split: if_splits)
  from p have "2 \<le> length s"
    by (auto simp: prefix_def)
  moreover have "length (dropWhile (\<lambda>c. c \<noteq> CHR ''}'') (drop 2 s)) \<le> length (drop 2 s)"
    by (rule length_dropWhile_le)
  ultimately show "(rest, s) \<in> measure length"
    using r by simp
qed auto

definition EscapeString :: "string \<Rightarrow> string" where
  \<open>EscapeString s =
     (let s = ReplaceAll s (CHR 0x5C) [CHR 0x5C, CHR 0x5C];
          s = ReplaceAll s (CHR ''"'') [CHR 0x5C, CHR ''"''];
          s = ReplaceAll s (CHR 0x0A) [CHR 0x5C, CHR ''n''];
          s = ReplaceAll s (CHR 0x09) [CHR 0x5C, CHR ''t''];
          s = ReplaceAll s (CHR 0x0D) [CHR 0x5C, CHR ''r'']
      in s)\<close>

definition between :: "char \<Rightarrow> char \<Rightarrow> char \<Rightarrow> bool" where
  "between lo hi c = ((of_char lo :: nat) \<le> of_char c \<and> (of_char c :: nat) \<le> of_char hi)"

definition luau_keywords :: "string list" where
  "luau_keywords =
     [''and'', ''break'', ''do'', ''else'', ''elseif'', ''end'', ''false'', ''for'',
      ''function'', ''if'', ''in'', ''local'', ''nil'', ''not'', ''or'', ''repeat'',
      ''return'', ''then'', ''true'', ''until'', ''while'']"

definition IsValidIdentifier :: "string \<Rightarrow> bool" where
  "IsValidIdentifier s =
     (case s of
        [] \<Rightarrow> False
      | first # rest \<Rightarrow>
          if \<not> (between (CHR ''a'') (CHR ''z'') first \<or> between (CHR ''A'') (CHR ''Z'') first
                \<or> first = CHR ''_'') then False
          else if \<not> list_all (\<lambda>c. between (CHR ''a'') (CHR ''z'') c
                                  \<or> between (CHR ''A'') (CHR ''Z'') c
                                  \<or> between (CHR ''0'') (CHR ''9'') c \<or> c = CHR ''_'') rest
               then False
          else if list_ex (\<lambda>kw. s = kw) luau_keywords then False
          else True)"

definition IndentLines :: "string \<Rightarrow> string \<Rightarrow> string" where
  "IndentLines text indent =
     (if text = [] then []
      else Join (map (\<lambda>line. if TrimSpace line \<noteq> [] then indent @ line else [])
                     (Split text (CHR 0x0A))) [CHR 0x0A])"

definition FormatComment :: "string \<Rightarrow> string" where
  "FormatComment text =
     (if text = [] then []
      else Join (map (\<lambda>line. let line = TrimSpace line
                              in if line \<noteq> [] then ''-- '' @ line else ''--'')
                     (Split (TrimSpace text) (CHR 0x0A))) [CHR 0x0A])"

definition IsStringLiteral :: "string \<Rightarrow> bool" where
  \<open>IsStringLiteral s =
     (let s = TrimSpace s in
      if length s < 2 then False
      else (hd s = CHR ''"'' \<and> last s = CHR ''"'')
         \<or> (hd s = CHR 0x27 \<and> last s = CHR 0x27)
         \<or> (prefix ''[['' s \<and> suffix '']]'' s))\<close>

definition IsNumberLiteral :: "stdlib \<Rightarrow> string \<Rightarrow> bool" where
  "IsNumberLiteral L s =
     (let s = TrimSpace s in
      if s = [] then False
      else if strconv_Atoi_ok L s then True
      else if strconv_ParseFloat_ok L s then True
      else False)"

definition WrapInQuotes :: "stdlib \<Rightarrow> string \<Rightarrow> string" where
  \<open>WrapInQuotes L s =
     (if IsStringLiteral s \<or> IsNumberLiteral L s then s
      else if IsValidIdentifier s \<or> Contains s ''('' \<or> Contains s ''.'' then s
      else ''"'' @ EscapeString s @ ''"'')\<close>

definition JoinWithCommas :: "string list \<Rightarrow> string" where
  "JoinWithCommas strs = Join (filter (\<lambda>s. s \<noteq> []) (map TrimSpace strs)) '', ''"

subsection \<open>Compiler state and handler registry\<close>

text \<open>
  A \<^verbatim>\<open>Handler\<close> is a Go function value. The registry holds the built-in handlers,
  each named by a constructor of \<open>handler\<close>; \<open>run_handler\<close> below gives the function
  a constructor stands for. \<^verbatim>\<open>Register\<close> may bind any tag to any of them. The field
  \<^verbatim>\<open>indent\<close> is a Go \<^verbatim>\<open>int\<close> that starts at 0 and is only changed by the
  paired \<^verbatim>\<open>indent++\<close> and \<^verbatim>\<open>indent--\<close> of the handlers, so it is a \<^typ>\<open>nat\<close>
  here (lemma \<open>compileNode_indent_mono\<close> shows that no decrement is applied to 0).
\<close>

datatype handler =
    H_set | H_if | H_elseif | H_else | H_for | H_while | H_repeat | H_break
  | H_function | H_call | H_return | H_arg
  | H_table | H_entry | H_array | H_item
  | H_print | H_warn | H_error
  | H_raw | H_comment | H_assert | H_typeof

record Compiler =
  handlers :: "string \<rightharpoonup> handler"
  indent :: nat

type_synonym result = "(string \<times> error option) \<times> Compiler"

definition Register :: "Compiler \<Rightarrow> string \<Rightarrow> handler \<Rightarrow> Compiler" where
  "Register c tag h = c\<lparr>handlers := (handlers c)(tag \<mapsto> h)\<rparr>"

definition getIndent :: "Compiler \<Rightarrow> string" where
  "getIndent c = Repeat ''    '' (indent c)"

subsection \<open>Built-in handlers\<close>

text \<open>
  Every handler takes the node and the compiler and returns the Go result pair together
  with the compiler as the call leaves it. The loop
  \<^verbatim>\<open>for _, child := range node.Nodes { childCode, err := compiler.compileNode(child) ... }\<close>
  of the block handlers is the parameter \<open>children\<close> (it is \<open>compileChildren\<close>
  below, on the node's children): it takes the compiler and the text built so far.
  \<open>block\<close> is the part the seven block handlers have in common: \<^verbatim>\<open>indent++\<close>, the
  loop with its early return, \<^verbatim>\<open>indent--\<close>, and the closing text.
\<close>

type_synonym children = "Compiler \<Rightarrow> string \<Rightarrow> result"

definition block :: "children \<Rightarrow> Compiler \<Rightarrow> string \<Rightarrow> (Compiler \<Rightarrow> string) \<Rightarrow> result" where
  "block children compiler result closing =
     (let c1 = compiler\<lparr>indent := indent compiler + 1\<rparr> in
      case children c1 result of
        ((_, Some err), c2) \<Rightarrow> (([], Some err), c2)
      | ((result, None), c2) \<Rightarrow>
          (let c3 = c2\<lparr>indent := indent c2 - 1\<rparr>
           in ((result @ closing c3, None), c3)))"

definition set_handler :: "Node \<Rightarrow> Compiler \<Rightarrow> result" where
  "set_handler node compiler =
     (let varName = GetAttr node ''var'' in
      if varName = [] then (([], Some ''set command requires 'var' attribute''), compiler)
      else if \<not> IsValidIdentifier varName
        then (([], Some (''invalid variable name: '' @ varName)), compiler)
      else
        (let isLocal = GetBoolAttr node ''local'';
             value = TrimSpace (Content node) in
         if value = [] then (([], Some ''set command requires a value''), compiler)
         else
           (let pre = (if isLocal then ''local '' else [])
            in ((getIndent compiler @ pre @ varName @ '' = '' @ value, None), compiler))))"

definition if_handler :: "children \<Rightarrow> Node \<Rightarrow> Compiler \<Rightarrow> result" where
  "if_handler children node compiler =
     (let test = GetAttr node ''test'' in
      if test = [] then (([], Some ''if command requires 'test' attribute''), compiler)
      else block children compiler (getIndent compiler @ ''if '' @ test @ '' then\<newline>'')
             (\<lambda>c. getIndent c @ ''end''))"

definition elseif_handler :: "children \<Rightarrow> Node \<Rightarrow> Compiler \<Rightarrow> result" where
  "elseif_handler children node compiler =
     (let test = GetAttr node ''test'' in
      if test = [] then (([], Some ''elseif command requires 'test' attribute''), compiler)
      else block children compiler (getIndent compiler @ ''elseif '' @ test @ '' then\<newline>'')
             (\<lambda>c. []))"

definition else_handler :: "children \<Rightarrow> Node \<Rightarrow> Compiler \<Rightarrow> result" where
  "else_handler children node compiler =
     block children compiler (getIndent compiler @ ''else\<newline>'') (\<lambda>c. [])"

definition for_handler :: "children \<Rightarrow> Node \<Rightarrow> Compiler \<Rightarrow> result" where
  "for_handler children node compiler =
     (let varName = GetAttr node ''var'';
          from = GetAttr node ''from'';
          to = GetAttr node ''to'';
          step = GetAttrWithDefault node ''step'' ''1'' in
      if varName = [] then (([], Some ''for command requires 'var' attribute''), compiler)
      else if \<not> IsValidIdentifier varName
        then (([], Some (''invalid variable name: '' @ varName)), compiler)
      else if from \<noteq> [] \<and> to \<noteq> [] then
        block children compiler
          (if step \<noteq> ''1''
           then getIndent compiler @ ''for '' @ varName @ '' = '' @ from @ '', '' @ to
                  @ '', '' @ step @ '' do\<newline>''
           else getIndent compiler @ ''for '' @ varName @ '' = '' @ from @ '', '' @ to
                  @ '' do\<newline>'')
          (\<lambda>c. getIndent c @ ''end'')
      else
        (let iterator = GetAttr node ''in'' in
         if iterator = []
         then (([], Some ''for command requires either 'from'/'to' or 'in' attributes''),
               compiler)
         else block children compiler
                (getIndent compiler @ ''for '' @ varName @ '' in '' @ iterator @ '' do\<newline>'')
                (\<lambda>c. getIndent c @ ''end'')))"

definition while_handler :: "children \<Rightarrow> Node \<Rightarrow> Compiler \<Rightarrow> result" where
  "while_handler children node compiler =
     (let test = GetAttr node ''test'' in
      if test = [] then (([], Some ''while command requires 'test' attribute''), compiler)
      else block children compiler (getIndent compiler @ ''while '' @ test @ '' do\<newline>'')
             (\<lambda>c. getIndent c @ ''end''))"

definition repeat_handler :: "children \<Rightarrow> Node \<Rightarrow> Compiler \<Rightarrow> result" where
  "repeat_handler children node compiler =
     (let until = GetAttr node ''until'' in
      if until = [] then (([], Some ''repeat command requires 'until' attribute''), compiler)
      else block children compiler (getIndent compiler @ ''repeat\<newline>'')
             (\<lambda>c. getIndent c @ ''until '' @ until))"

definition break_handler :: "Node \<Rightarrow> Compiler \<Rightarrow> result" where
  "break_handler node compiler = ((getIndent compiler @ ''break'', None), compiler)"

definition function_handler :: "children \<Rightarrow> Node \<Rightarrow> Compiler \<Rightarrow> result" where
  "function_handler children node compiler =
     (let name = GetAttr node ''name'';
          params = GetAttrWithDefault node ''params'' [];
          isLocal = GetBoolAttr node ''local'' in
      if name = [] then (([], Some ''function command requires 'name' attribute''), compiler)
      else if \<not> IsValidIdentifier name
        then (([], Some (''invalid function name: '' @ name)), compiler)
      else
        (let pre = (if isLocal then ''local '' else [])
         in block children compiler
              (getIndent compiler @ pre @ ''function '' @ name @ ''('' @ params @ '')\<newline>'')
              (\<lambda>c. getIndent c @ ''end'')))"

definition call_handler :: "Node \<Rightarrow> Compiler \<Rightarrow> result" where
  "call_handler node compiler =
     (let name = GetAttr node ''name'' in
      if name = [] then (([], Some ''call command requires 'name' attribute''), compiler)
      else
        (let args = [];
             content = TrimSpace (Content node);
             args = (if content \<noteq> [] then args @ [content] else args);
             args = foldl (\<lambda>args child.
                       if Local (XMLName child) = ''arg'' then
                         (let argValue = TrimSpace (Content child)
                          in if argValue \<noteq> [] then args @ [argValue] else args)
                       else args) args (Nodes node);
             argsStr = JoinWithCommas args
         in ((getIndent compiler @ name @ ''('' @ argsStr @ '')'', None), compiler)))"

definition return_handler :: "Node \<Rightarrow> Compiler \<Rightarrow> result" where
  "return_handler node compiler =
     (let content = TrimSpace (Content node) in
      if content = [] then ((getIndent compiler @ ''return'', None), compiler)
      else ((getIndent compiler @ ''return '' @ content, None), compiler))"

definition arg_handler :: "Node \<Rightarrow> Compiler \<Rightarrow> result" where
  "arg_handler node compiler = (([], None), compiler)"

text \<open>The loop over \<^verbatim>\<open>node.Nodes\<close> of the table handler (the same in both of its
  branches), run at the incremented indent.\<close>

definition table_entries :: "stdlib \<Rightarrow> Compiler \<Rightarrow> Node list \<Rightarrow> string \<Rightarrow> string" where
  "table_entries L compiler nodes result =
     foldl (\<lambda>result child.
        if Local (XMLName child) = ''entry'' then
          (let key = GetAttr child ''key'';
               value = TrimSpace (Content child) in
           if key \<noteq> [] \<and> value \<noteq> [] then
             (if IsValidIdentifier key
              then result @ getIndent compiler @ key @ '' = '' @ value @ '',\<newline>''
              else result @ getIndent compiler @ ''['' @ WrapInQuotes L key @ ''] = ''
                     @ value @ '',\<newline>'')
           else result)
        else result) result nodes"

definition table_handler :: "stdlib \<Rightarrow> Node \<Rightarrow> Compiler \<Rightarrow> result" where
  "table_handler L node compiler =
     (let varName = GetAttr node ''var'';
          isLocal = GetBoolAttr node ''local'';
          pre = (if isLocal then ''local '' else []) in
      if varName \<noteq> [] then
        (if \<not> IsValidIdentifier varName
         then (([], Some (''invalid variable name: '' @ varName)), compiler)
         else
           (let result = getIndent compiler @ pre @ varName @ '' = {\<newline>'';
                c1 = compiler\<lparr>indent := indent compiler + 1\<rparr>;
                result = table_entries L c1 (Nodes node) result;
                c2 = c1\<lparr>indent := indent c1 - 1\<rparr>;
                result = result @ getIndent c2 @ ''}''
            in ((result, None), c2)))
      else
        (let result = ''{\<newline>'';
             c1 = compiler\<lparr>indent := indent compiler + 1\<rparr>;
             result = table_entries L c1 (Nodes node) result;
             c2 = c1\<lparr>indent := indent c1 - 1\<rparr>;
             result = result @ getIndent c2 @ ''}''
         in ((result, None), c2)))"

definition entry_handler :: "Node \<Rightarrow> Compiler \<Rightarrow> result" where
  "entry_handler node compiler = (([], None), compiler)"

definition array_handler :: "Node \<Rightarrow> Compiler \<Rightarrow> result" where
  "array_handler node compiler =
     (let varName = GetAttr node ''var'';
          isLocal = GetBoolAttr node ''local'';
          pre = (if isLocal then ''local '' else []);
          values = [];
          content = TrimSpace (Content node);
          values = (if content \<noteq> [] then values @ [content] else values);
          values = foldl (\<lambda>values child.
                     if Local (XMLName child) = ''item'' then
                       (let itemValue = TrimSpace (Content child)
                        in if itemValue \<noteq> [] then values @ [itemValue] else values)
                     else values) values (Nodes node);
          arrayContent = JoinWithCommas values in
      if varName \<noteq> [] then
        (if \<not> IsValidIdentifier varName
         then (([], Some (''invalid variable name: '' @ varName)), compiler)
         else ((getIndent compiler @ pre @ varName @ '' = {'' @ arrayContent @ ''}'', None),
               compiler))
      else ((''{'' @ arrayContent @ ''}'', None), compiler))"

definition item_handler :: "Node \<Rightarrow> Compiler \<Rightarrow> result" where
  "item_handler node compiler = (([], None), compiler)"

definition print_handler :: "Node \<Rightarrow> Compiler \<Rightarrow> result" where
  \<open>print_handler node compiler =
     (let content = TrimSpace (Content node) in
      if content = [] then (([], Some ''print command requires content''), compiler)
      else if Contains content ''{{'' then
        (let interpolated = Interpolate content
         in ((getIndent compiler @ ''print("'' @ interpolated @ ''")'', None), compiler))
      else ((getIndent compiler @ ''print('' @ content @ '')'', None), compiler))\<close>

definition warn_handler :: "Node \<Rightarrow> Compiler \<Rightarrow> result" where
  \<open>warn_handler node compiler =
     (let content = TrimSpace (Content node) in
      if content = [] then (([], Some ''warn command requires content''), compiler)
      else if Contains content ''{{'' then
        (let interpolated = Interpolate content
         in ((getIndent compiler @ ''warn("'' @ interpolated @ ''")'', None), compiler))
      else ((getIndent compiler @ ''warn('' @ content @ '')'', None), compiler))\<close>

definition error_handler :: "Node \<Rightarrow> Compiler \<Rightarrow> result" where
  \<open>error_handler node compiler =
     (let content = TrimSpace (Content node) in
      if content = [] then (([], Some ''error command requires content''), compiler)
      else
        (let level = GetAttrWithDefault node ''level'' ''1'' in
         if Contains content ''{{'' then
           (let interpolated = Interpolate content
            in ((getIndent compiler @ ''error("'' @ interpolated @ ''", '' @ level @ '')'', None),
                compiler))
         else ((getIndent compiler @ ''error('' @ content @ '', '' @ level @ '')'', None),
               compiler)))\<close>

definition raw_handler :: "Node \<Rightarrow> Compiler \<Rightarrow> result" where
  "raw_handler node compiler =
     (let content = TrimSpace (Content node) in
      if content = [] then (([], None), compiler)
      else ((IndentLines content (getIndent compiler), None), compiler))"

definition comment_handler :: "Node \<Rightarrow> Compiler \<Rightarrow> result" where
  "comment_handler node compiler =
     (let content = TrimSpace (Content node) in
      if content = [] then (([], None), compiler)
      else
        (let comment = FormatComment content
         in ((IndentLines comment (getIndent compiler), None), compiler)))"

definition assert_handler :: "stdlib \<Rightarrow> Node \<Rightarrow> Compiler \<Rightarrow> result" where
  "assert_handler L node compiler =
     (let condition = GetAttr node ''test'' in
      if condition = [] then (([], Some ''assert command requires 'test' attribute''), compiler)
      else
        (let message = TrimSpace (Content node) in
         if message \<noteq> []
         then ((getIndent compiler @ ''assert('' @ condition @ '', '' @ WrapInQuotes L message
                  @ '')'', None), compiler)
         else ((getIndent compiler @ ''assert('' @ condition @ '')'', None), compiler)))"

definition typeof_handler :: "Node \<Rightarrow> Compiler \<Rightarrow> result" where
  "typeof_handler node compiler =
     (let varName = GetAttr node ''var'';
          value = TrimSpace (Content node) in
      if varName = [] \<and> value = []
      then (([], Some ''typeof command requires either 'var' attribute or content''), compiler)
      else if varName \<noteq> [] then
        (if \<not> IsValidIdentifier varName
         then (([], Some (''invalid variable name: '' @ varName)), compiler)
         else
           (let isLocal = GetBoolAttr node ''local'';
                expr = value in
            if expr = []
            then (([], Some ''typeof command with 'var' requires content''), compiler)
            else
              (let pre = (if isLocal then ''local '' else [])
               in ((getIndent compiler @ pre @ varName @ '' = typeof('' @ expr @ '')'', None),
                   compiler))))
      else ((''typeof('' @ value @ '')'', None), compiler))"

text \<open>The function value behind each registered handler.\<close>

fun run_handler :: "stdlib \<Rightarrow> handler \<Rightarrow> children \<Rightarrow> Node \<Rightarrow> Compiler \<Rightarrow> result" where
  "run_handler L H_set children = set_handler"
| "run_handler L H_if children = if_handler children"
| "run_handler L H_elseif children = elseif_handler children"
| "run_handler L H_else children = else_handler children"
| "run_handler L H_for children = for_handler children"
| "run_handler L H_while children = while_handler children"
| "run_handler L H_repeat children = repeat_handler children"
| "run_handler L H_break children = break_handler"
| "run_handler L H_function children = function_handler children"
| "run_handler L H_call children = call_handler"
| "run_handler L H_return children = return_handler"
| "run_handler L H_arg children = arg_handler"
| "run_handler L H_table children = table_handler L"
| "run_handler L H_entry children = entry_handler"
| "run_handler L H_array children = array_handler"
| "run_handler L H_item children = item_handler"
| "run_handler L H_print children = print_handler"
| "run_handler L H_warn children = warn_handler"
| "run_handler L H_error children = error_handler"
| "run_handler L H_raw children = raw_handler"
| "run_handler L H_comment children = comment_handler"
| "run_handler L H_assert children = assert_handler L"
| "run_handler L H_typeof children = typeof_handler"

definition registerVariableCommands :: "Compiler \<Rightarrow> Compiler" where
  "registerVariableCommands c = Register c ''set'' H_set"

definition registerControlFlowCommands :: "Compiler \<Rightarrow> Compiler" where
  "registerControlFlowCommands c =
     (let c = Register c ''if'' H_if;
          c = Register c ''elseif'' H_elseif;
          c = Register c ''else'' H_else;
          c = Register c ''for'' H_for;
          c = Register c ''while'' H_while;
          c = Register c ''repeat'' H_repeat;
          c = Register c ''break'' H_break
      in c)"

definition registerFunctionCommands :: "Compiler \<Rightarrow> Compiler" where
  "registerFunctionCommands c =
     (let c = Register c ''function'' H_function;
          c = Register c ''call'' H_call;
          c = Register c ''return'' H_return;
          c = Register c ''arg'' H_arg
      in c)"

definition registerDataCommands :: "Compiler \<Rightarrow> Compiler" where
  "registerDataCommands c =
     (let c = Register c ''table'' H_table;
          c = Register c ''entry'' H_entry;
          c = Register c ''array'' H_array;
          c = Register c ''item'' H_item
      in c)"

definition registerIOCommands :: "Compiler \<Rightarrow> Compiler" where
  "registerIOCommands c =
     (let c = Register c ''print'' H_print;
          c = Register c ''warn'' H_warn;
          c = Register c ''error'' H_error
      in c)"

definition registerUtilityCommands :: "Compiler \<Rightarrow> Compiler" where
  "registerUtilityCommands c =
     (let c = Register c ''raw'' H_raw;
          c = Register c ''comment'' H_comment;
          c = Register c ''assert'' H_assert;
          c = Register c ''typeof'' H_typeof
      in c)"

definition registerBuiltins :: "Compiler \<Rightarrow> Compiler" where
  "registerBuiltins c =
     (let c = registerVariableCommands c;
          c = registerControlFlowCommands c;
          c = registerFunctionCommands c;
          c = registerDataCommands c;
          c = registerIOCommands c;
          c = registerUtilityCommands c
      in c)"

definition NewCompiler :: Compiler where
  "NewCompiler = registerBuiltins \<lparr>handlers = Map.empty, indent = 0\<rparr>"

subsection \<open>Compiler engine\<close>

fun compileNode :: "stdlib \<Rightarrow> Compiler \<Rightarrow> Node \<Rightarrow> result"
  and compileChildren :: "stdlib \<Rightarrow> Compiler \<Rightarrow> Node list \<Rightarrow> string \<Rightarrow> result" where
  "compileNode L c (Node xmlname attrs chardata nodes) =
     (let node = Node xmlname attrs chardata nodes in
      if Local xmlname = [] then
        (let content = TrimSpace chardata in
         if content = [] then (([], None), c)
         else (([], Some (''unexpected text content: '' @ content)), c))
      else
        (case handlers c (Local xmlname) of
           None \<Rightarrow> (([], Some (''unknown tag: '' @ Local xmlname)), c)
         | Some h \<Rightarrow>
             run_handler L h (\<lambda>compiler result. compileChildren L compiler nodes result) node c))"
| "compileChildren L c [] result = ((result, None), c)"
| "compileChildren L c (child # rest) result =
     (case compileNode L c child of
        ((childCode, Some err), c') \<Rightarrow> (([], Some err), c')
      | ((childCode, None), c') \<Rightarrow>
          compileChildren L c' rest
            (if childCode \<noteq> [] then result @ childCode @ ''\<newline>'' else result))"

text \<open>The loop of \<^verbatim>\<open>CompileFromString\<close> over the children of a \<^verbatim>\<open>script\<close> root:
  it collects the non-empty results, or returns at the first error.\<close>

fun compileScript :: "stdlib \<Rightarrow> Compiler \<Rightarrow> Node list \<Rightarrow> string list \<Rightarrow> (string list \<times> error option) \<times> Compiler" where
  "compileScript L c [] results = ((results, None), c)"
| "compileScript L c (child # rest) results =
     (case compileNode L c child of
        ((code, Some err), c') \<Rightarrow> (([], Some err), c')
      | ((code, None), c') \<Rightarrow>
          compileScript L c' rest (if code \<noteq> [] then results @ [code] else results))"

definition CompileFromString :: "stdlib \<Rightarrow> Compiler \<Rightarrow> string \<Rightarrow> result" where
  "CompileFromString L c s =
     (case xml_Unmarshal L s of
        Inl err \<Rightarrow> (([], Some (''XML parse error: '' @ err)), c)
      | Inr root \<Rightarrow>
          if Local (XMLName root) = ''script'' then
            (case compileScript L c (Nodes root) [] of
               ((_, Some err), c') \<Rightarrow> (([], Some err), c')
             | ((results, None), c') \<Rightarrow> ((Join results ''\<newline>'', None), c'))
          else compileNode L c root)"


subsection \<open>Notions used to state the properties\<close>

text \<open>A placeholder in a text: after \<open>pre\<close> come two opening braces, a non-empty
  expression text \<open>body\<close> without a closing brace, two closing braces, and \<open>post\<close>.\<close>

definition placeholder :: "string \<Rightarrow> string \<Rightarrow> string \<Rightarrow> string \<Rightarrow> bool" where
  "placeholder s pre body post \<longleftrightarrow>
     s = pre @ ''{{'' @ body @ ''}}'' @ post \<and> body \<noteq> [] \<and> CHR ''}'' \<notin> set body"

text \<open>A complete entry of a table: an \<^verbatim>\<open>entry\<close> child with a non-empty key and
  content that is not only white space; \<open>table_field\<close> is the line such an entry
  contributes to the table literal.\<close>

definition complete_entry :: "Node \<Rightarrow> bool" where
  "complete_entry child \<longleftrightarrow>
     Local (XMLName child) = ''entry'' \<and> GetAttr child ''key'' \<noteq> []
     \<and> TrimSpace (Content child) \<noteq> []"

definition table_field :: "stdlib \<Rightarrow> Compiler \<Rightarrow> Node \<Rightarrow> string" where
  "table_field L compiler child =
     getIndent compiler
     @ (if IsValidIdentifier (GetAttr child ''key'') then GetAttr child ''key''
        else ''['' @ WrapInQuotes L (GetAttr child ''key'') @ '']'')
     @ '' = '' @ TrimSpace (Content child) @ '',\<newline>''"

subsection \<open>Example trees\<close>

definition xml_attr :: "string \<Rightarrow> string \<Rightarrow> xml_Attr" where
  "xml_attr name v = \<lparr>Name = \<lparr>Space = [], Local = name\<rparr>, Value = v\<rparr>"

definition element :: "string \<Rightarrow> xml_Attr list \<Rightarrow> string \<Rightarrow> Node list \<Rightarrow> Node" where
  "element tag as chardata kids = Node \<lparr>Space = [], Local = tag\<rparr> as chardata kids"

text \<open>\<^verbatim>\<open><for var="i" from="1" to="10"><print>{{i}}</print></for>\<close>\<close>

definition for_example :: Node where
  "for_example =
     element ''for'' [xml_attr ''var'' ''i'', xml_attr ''from'' ''1'', xml_attr ''to'' ''10''] []
       [element ''print'' [] ''{{i}}'' []]"

text \<open>\<^verbatim>\<open><for var="i" step=""/>\<close>: the attribute is present and empty.\<close>

definition empty_step_example :: Node where
  "empty_step_example = element ''for'' [xml_attr ''var'' ''i'', xml_attr ''step'' []] [] []"

text \<open>A child with an unregistered tag, and one block of each kind around it.\<close>

definition bad_child :: Node where
  "bad_child = element ''bad'' [] [] []"

definition leaking_blocks :: "Node list" where
  "leaking_blocks =
     [element ''if'' [xml_attr ''test'' ''x''] [] [bad_child],
      element ''elseif'' [xml_attr ''test'' ''x''] [] [bad_child],
      element ''else'' [] [] [bad_child],
      element ''for'' [xml_attr ''var'' ''i'', xml_attr ''from'' ''1'', xml_attr ''to'' ''2''] [] [bad_child],
      element ''while'' [xml_attr ''test'' ''x''] [] [bad_child],
      element ''repeat'' [xml_attr ''until'' ''x''] [] [bad_child],
      element ''function'' [xml_attr ''name'' ''f''] [] [bad_child]]"

text \<open>Two text fragments (empty tag name): white space only, and stray text.\<close>

definition blank_text :: Node where
  "blank_text = Node \<lparr>Space = [], Local = []\<rparr> [] [CHR '' '', CHR 0x0A, CHR 0x09] []"

definition stray_text :: Node where
  "stray_text = Node \<lparr>Space = [], Local = []\<rparr> [] '' hello '' []"

text \<open>Three documents with the trees the parser builds from them, and an instance of the
  library parameters for the worked examples: decimal digit strings count as numbers,
  and the parser knows these three documents.\<close>

definition script_source :: string where
  \<open>script_source = ''<script><set var="x" local="true">42</set><arg/><break/></script>''\<close>

definition script_tree :: Node where
  "script_tree =
     element ''script'' [] []
       [element ''set'' [xml_attr ''var'' ''x'', xml_attr ''local'' ''true''] ''42'' [],
        element ''arg'' [] [] [],
        element ''break'' [] [] []]"

definition failing_source :: string where
  \<open>failing_source = ''<script><break/><if test="x"><bad/></if><return/></script>''\<close>

definition failing_tree :: Node where
  "failing_tree =
     element ''script'' [] []
       [element ''break'' [] [] [],
        element ''if'' [xml_attr ''test'' ''x''] [] [bad_child],
        element ''return'' [] [] []]"

definition single_source :: string where
  "single_source = ''<break/>''"

definition example_stdlib :: stdlib where
  "example_stdlib =
     \<lparr>strconv_Atoi_ok = (\<lambda>s. s \<noteq> [] \<and> list_all (between (CHR ''0'') (CHR ''9'')) s),
      strconv_ParseFloat_ok = (\<lambda>s. s \<noteq> [] \<and> list_all (between (CHR ''0'') (CHR ''9'')) s),
      xml_Unmarshal = (\<lambda>s. if s = script_source then Inr script_tree
                            else if s = failing_source then Inr failing_tree
                            else if s = single_source then Inr (element ''break'' [] [] [])
                            else Inl ''EOF'')\<rparr>"

text \<open>Loops with both forms of range, with the numeric form only, with neither, and with
  the iterator form; a table with complete and incomplete entries.\<close>

definition for_both_example :: Node where
  "for_both_example =
     element ''for'' [xml_attr ''var'' ''i'', xml_attr ''from'' ''1'', xml_attr ''to'' ''10'',
                      xml_attr ''in'' ''pairs(t)''] [] []"

definition for_numeric_example :: Node where
  "for_numeric_example =
     element ''for'' [xml_attr ''var'' ''i'', xml_attr ''from'' ''1'', xml_attr ''to'' ''10''] [] []"

definition for_neither_example :: Node where
  "for_neither_example = element ''for'' [xml_attr ''var'' ''i'', xml_attr ''from'' ''1''] [] []"

definition for_iterator_example :: Node where
  "for_iterator_example =
     element ''for'' [xml_attr ''var'' ''v'', xml_attr ''from'' ''1'', xml_attr ''in'' ''pairs(t)''] [] []"

definition table_example :: Node where
  "table_example =
     element ''table'' [xml_attr ''var'' ''t''] []
       [element ''entry'' [xml_attr ''key'' ''a''] ''1'' [],
        element ''entry'' [xml_attr ''key'' []] ''2'' [],
        element ''entry'' [xml_attr ''key'' ''b''] ''  '' [],
        element ''item'' [xml_attr ''key'' ''c''] ''9'' [],
        element ''entry'' [xml_attr ''key'' ''my key''] ''3'' []]"

section \<open>Properties\<close>

subsection \<open>Facts about the engine\<close>

text \<open>
  An error comes with empty output; a call that succeeds leaves the compiler as it found
  it; no call changes the registry; the indent never ends below its value at the call
  (so that no \<^verbatim>\<open>indent--\<close> is applied to 0); whether a call fails, and with which
  error, does not depend on the indent.
\<close>

lemmas handler_defs = set_handler_def if_handler_def elseif_handler_def else_handler_def
  for_handler_def while_handler_def repeat_handler_def break_handler_def function_handler_def
  call_handler_def return_handler_def arg_handler_def table_handler_def entry_handler_def
  array_handler_def item_handler_def print_handler_def warn_handler_def error_handler_def
  raw_handler_def comment_handler_def assert_handler_def typeof_handler_def




lemma block_success_state:
  assumes b: "block ch c hdr closing = ((out, None), c')"
    and ch: "\<forall>c1 r out c2. ch c1 r = ((out, None), c2) \<longrightarrow> c2 = c1"
  shows "c' = c"
proof -
  obtain r e c2 where r: "ch (c\<lparr>indent := indent c + 1\<rparr>) hdr = ((r, e), c2)"
    by (metis surj_pair)
  with b have e: "e = None"
    by (cases e) (auto simp: block_def Let_def)
  with r ch have c2: "c2 = c\<lparr>indent := indent c + 1\<rparr>"
    by blast
  from b r e have "c' = c2\<lparr>indent := indent c2 - 1\<rparr>"
    by (auto simp: block_def Let_def)
  with c2 show ?thesis by simp
qed

lemma run_handler_success_state:
  assumes "run_handler L h ch n c = ((out, None), c')"
    and "\<forall>c1 r out c2. ch c1 r = ((out, None), c2) \<longrightarrow> c2 = c1"
  shows "c' = c"
  using assms by (cases h) (auto simp: handler_defs Let_def split: if_splits dest: block_success_state)

lemma compile_success_state:
  "(\<forall>out c'. compileNode L c n = ((out, None), c') \<longrightarrow> c' = c)"
  "(\<forall>out c'. compileChildren L c kids r = ((out, None), c') \<longrightarrow> c' = c)"
proof (induction L c n and L c kids r rule: compileNode_compileChildren.induct)
  case (1 L c xmlname attrs chardata nodes)
  show ?case
  proof (intro allI impI)
    fix out c'
    assume a: "compileNode L c (Node xmlname attrs chardata nodes) = ((out, None), c')"
    show "c' = c"
    proof (cases "Local xmlname = []")
      case True
      with a show ?thesis by (auto simp: Let_def split: if_splits)
    next
      case False
      show ?thesis
      proof (cases "handlers c (Local xmlname)")
        case None
        with a False show ?thesis by simp
      next
        case (Some h)
        from a False Some have rh: "run_handler L h (\<lambda>compiler result. compileChildren L compiler nodes result)
              (Node xmlname attrs chardata nodes) c = ((out, None), c')"
          by simp
        have ih: "\<forall>c1 r out c2. compileChildren L c1 nodes r = ((out, None), c2) \<longrightarrow> c2 = c1"
          using "1.IH"[OF refl False Some] by blast
        show ?thesis
          by (rule run_handler_success_state[OF rh ih])
      qed
    qed
  qed
next
  case (2 L c result)
  show ?case by simp
next
  case (3 L c child rest result)
  show ?case
  proof (intro allI impI)
    fix out c'
    assume a: "compileChildren L c (child # rest) result = ((out, None), c')"
    obtain code e c1 where r: "compileNode L c child = ((code, e), c1)"
      by (metis surj_pair)
    with a have e: "e = None" by (cases e) auto
    with r "3.IH"(1) have c1: "c1 = c" by blast
    from a r e have "compileChildren L c1 rest (if code \<noteq> [] then result @ code @ ''\<newline>'' else result) = ((out, None), c')"
      by simp
    with "3.IH"(2)[OF r[symmetric] refl e] have "c' = c1" by blast
    with c1 show "c' = c" by simp
  qed
qed

lemma block_handlers:
  assumes ch: "\<forall>c1 r. handlers (snd (ch c1 r)) = handlers c1"
  shows "handlers (snd (block ch c hdr closing)) = handlers c"
proof -
  obtain r e c2 where r: "ch (c\<lparr>indent := indent c + 1\<rparr>) hdr = ((r, e), c2)"
    by (metis surj_pair)
  from ch have "handlers (snd (ch (c\<lparr>indent := indent c + 1\<rparr>) hdr)) = handlers (c\<lparr>indent := indent c + 1\<rparr>)"
    by blast
  with r have "handlers c2 = handlers c"
    by simp
  with r show ?thesis
    by (cases e) (auto simp: block_def Let_def)
qed

lemma run_handler_handlers:
  assumes "\<forall>c1 r. handlers (snd (ch c1 r)) = handlers c1"
  shows "handlers (snd (run_handler L h ch n c)) = handlers c"
  using assms by (cases h) (auto simp: handler_defs Let_def block_handlers)

lemma compile_handlers_preserved:
  "handlers (snd (compileNode L c n)) = handlers c"
  "handlers (snd (compileChildren L c kids r)) = handlers c"
proof (induction L c n and L c kids r rule: compileNode_compileChildren.induct)
  case (1 L c xmlname attrs chardata nodes)
  show ?case
  proof (cases "Local xmlname = []")
    case True
    then show ?thesis by (simp add: Let_def)
  next
    case False
    show ?thesis
    proof (cases "handlers c (Local xmlname)")
      case None
      with False show ?thesis by simp
    next
      case (Some h)
      have "\<forall>c1 r. handlers (snd (compileChildren L c1 nodes r)) = handlers c1"
        using "1.IH"[OF refl False Some] by blast
      then show ?thesis
        using False Some by (simp add: run_handler_handlers)
    qed
  qed
next
  case (2 L c result)
  show ?case by simp
next
  case (3 L c child rest result)
  obtain code e c1 where r: "compileNode L c child = ((code, e), c1)"
    by (metis surj_pair)
  with "3.IH"(1) have h1: "handlers c1 = handlers c" by simp
  show ?case
  proof (cases e)
    case None
    with "3.IH"(2)[OF r[symmetric] refl] r h1 show ?thesis by simp
  next
    case (Some a)
    with r h1 show ?thesis by simp
  qed
qed

lemma block_indent_mono:
  assumes ch: "\<forall>c1 r. indent c1 \<le> indent (snd (ch c1 r))"
  shows "indent c \<le> indent (snd (block ch c hdr closing))"
proof -
  obtain r e c2 where r: "ch (c\<lparr>indent := indent c + 1\<rparr>) hdr = ((r, e), c2)"
    by (metis surj_pair)
  from ch have "indent (c\<lparr>indent := indent c + 1\<rparr>) \<le> indent (snd (ch (c\<lparr>indent := indent c + 1\<rparr>) hdr))"
    by blast
  with r have "indent c + 1 \<le> indent c2" by simp
  with r show ?thesis
    by (cases e) (auto simp: block_def Let_def)
qed

lemma run_handler_indent_mono:
  assumes "\<forall>c1 r. indent c1 \<le> indent (snd (ch c1 r))"
  shows "indent c \<le> indent (snd (run_handler L h ch n c))"
  using assms by (cases h) (auto simp: handler_defs Let_def block_indent_mono)

lemma compileNode_indent_mono:
  "indent c \<le> indent (snd (compileNode L c n))"
  "indent c \<le> indent (snd (compileChildren L c kids r))"
proof (induction L c n and L c kids r rule: compileNode_compileChildren.induct)
  case (1 L c xmlname attrs chardata nodes)
  show ?case
  proof (cases "Local xmlname = []")
    case True
    then show ?thesis by (simp add: Let_def)
  next
    case False
    show ?thesis
    proof (cases "handlers c (Local xmlname)")
      case None
      with False show ?thesis by simp
    next
      case (Some h)
      have "\<forall>c1 r. indent c1 \<le> indent (snd (compileChildren L c1 nodes r))"
        using "1.IH"[OF refl False Some] by blast
      then show ?thesis
        using False Some by (simp add: run_handler_indent_mono)
    qed
  qed
next
  case (2 L c result)
  show ?case by simp
next
  case (3 L c child rest result)
  obtain code e c1 where r: "compileNode L c child = ((code, e), c1)"
    by (metis surj_pair)
  with "3.IH"(1) have h1: "indent c \<le> indent c1" by simp
  show ?case
  proof (cases e)
    case None
    with "3.IH"(2)[OF r[symmetric] refl] r h1 show ?thesis by simp
  next
    case (Some a)
    with r h1 show ?thesis by simp
  qed
qed





subsection \<open>Facts about placeholders\<close>

text \<open>\<open>placeholderAt\<close> finds exactly the placeholders that start a text, and
  \<^verbatim>\<open>Interpolate\<close> copies the text in front of the leftmost one.\<close>

lemma placeholderAt_Some_iff:
  "placeholderAt t = Some (body, rest) \<longleftrightarrow> placeholder t [] body rest"
proof
  assume a: "placeholderAt t = Some (body, rest)"
  let ?P = "\<lambda>c. c \<noteq> CHR ''}''"
  from a obtain zs where t: "t = ''{{'' @ zs"
    by (auto simp: placeholderAt_def prefix_def split: if_splits)
  from a t have b: "body = takeWhile ?P zs" and ne: "body \<noteq> []"
    and p: "prefix ''}}'' (dropWhile ?P zs)" and r: "rest = drop 2 (dropWhile ?P zs)"
    by (auto simp: placeholderAt_def Let_def split: if_splits)
  from p r have "dropWhile ?P zs = ''}}'' @ rest"
    by (auto simp: prefix_def)
  then have "zs = body @ ''}}'' @ rest"
    using b takeWhile_dropWhile_id[of ?P zs] by simp
  moreover from b have "CHR ''}'' \<notin> set body"
    by (auto dest: set_takeWhileD)
  ultimately show "placeholder t [] body rest"
    using t ne by (simp add: placeholder_def)
next
  assume "placeholder t [] body rest"
  then have t: "t = ''{{'' @ body @ ''}}'' @ rest" and ne: "body \<noteq> []"
    and nb: "CHR ''}'' \<notin> set body"
    by (auto simp: placeholder_def)
  let ?P = "\<lambda>c. c \<noteq> CHR ''}''"
  from nb have tw: "takeWhile ?P (body @ ''}}'' @ rest) = body"
    by (subst takeWhile_append2) auto
  from nb have dw: "dropWhile ?P (body @ ''}}'' @ rest) = ''}}'' @ rest"
    by (subst dropWhile_append2) auto
  show "placeholderAt t = Some (body, rest)"
    using t ne tw dw by (simp add: placeholderAt_def Let_def)
qed

lemma placeholderAt_None_iff:
  "placeholderAt t = None \<longleftrightarrow> (\<forall>body rest. \<not> placeholder t [] body rest)"
proof (cases "placeholderAt t")
  case None
  then show ?thesis
    using placeholderAt_Some_iff[of t] by simp
next
  case (Some a)
  then show ?thesis
    using placeholderAt_Some_iff[of t "fst a" "snd a"] by auto
qed

lemma placeholder_Cons:
  "placeholder s pre body post \<Longrightarrow> placeholder (c # s) (c # pre) body post"
  by (simp add: placeholder_def)

lemma placeholder_drop:
  assumes "placeholder (drop i s) [] body post"
  shows "placeholder s (take i s) body post"
proof -
  have "s = take i s @ drop i s" by simp
  with assms show ?thesis
    unfolding placeholder_def by (metis append_Nil)
qed

lemma Interpolate_Cons_None:
  "placeholderAt (c # s) = None \<Longrightarrow> Interpolate (c # s) = c # Interpolate s"
  by (subst Interpolate.simps) simp

lemma Interpolate_Some:
  "placeholderAt s = Some (body, rest) \<Longrightarrow>
   Interpolate s = [CHR 0x22] @ '' .. tostring('' @ TrimSpace body @ '') .. '' @ [CHR 0x22] @ Interpolate rest"
  by (subst Interpolate.simps) (simp add: Let_def)

lemma Interpolate_skip:
  "(\<forall>i<length pre. placeholderAt (drop i (pre @ t)) = None) \<Longrightarrow>
   Interpolate (pre @ t) = pre @ Interpolate t"
proof (induction pre)
  case Nil
  show ?case by simp
next
  case (Cons c pre)
  from Cons.prems have "placeholderAt (drop 0 ((c # pre) @ t)) = None"
    by blast
  then have h: "Interpolate ((c # pre) @ t) = c # Interpolate (pre @ t)"
    by (simp add: Interpolate_Cons_None)
  have "\<forall>i<length pre. placeholderAt (drop i (pre @ t)) = None"
  proof (intro allI impI)
    fix i assume "i < length pre"
    then have "Suc i < length (c # pre)" by simp
    with Cons.prems have "placeholderAt (drop (Suc i) ((c # pre) @ t)) = None"
      by blast
    then show "placeholderAt (drop i (pre @ t)) = None" by simp
  qed
  with Cons.IH h show ?case by simp
qed

lemma Interpolate_identity:
  "(\<forall>pre body post. \<not> placeholder s pre body post) \<Longrightarrow> Interpolate s = s"
proof -
  assume a: "\<forall>pre body post. \<not> placeholder s pre body post"
  have "\<forall>i<length s. placeholderAt (drop i (s @ [])) = None"
  proof (intro allI impI)
    fix i assume "i < length s"
    show "placeholderAt (drop i (s @ [])) = None"
    proof (rule ccontr)
      assume "placeholderAt (drop i (s @ [])) \<noteq> None"
      then obtain body rest where "placeholderAt (drop i s) = Some (body, rest)"
        by auto
      then have "placeholder (drop i s) [] body rest"
        by (simp add: placeholderAt_Some_iff)
      then have "placeholder s (take i s) body rest"
        by (rule placeholder_drop)
      with a show False by blast
    qed
  qed
  then have "Interpolate (s @ []) = s @ Interpolate []"
    by (rule Interpolate_skip)
  moreover have "Interpolate [] = []"
    by (subst Interpolate.simps) (simp add: placeholderAt_def)
  ultimately show ?thesis by simp
qed

lemma Interpolate_leftmost:
  assumes p: "placeholder s pre body post"
    and l: "\<forall>pre' body' post'. placeholder s pre' body' post' \<longrightarrow> length pre \<le> length pre'"
  shows "Interpolate s = pre @ [CHR 0x22] @ '' .. tostring('' @ TrimSpace body @ '') .. '' @ [CHR 0x22] @ Interpolate post"
proof -
  let ?t = "''{{'' @ body @ ''}}'' @ post"
  from p have s: "s = pre @ ?t"
    by (simp add: placeholder_def)
  from p have "placeholder ?t [] body post"
    by (simp add: placeholder_def)
  then have at: "placeholderAt ?t = Some (body, post)"
    by (simp only: placeholderAt_Some_iff)
  have "\<forall>i<length pre. placeholderAt (drop i (pre @ ?t)) = None"
  proof (intro allI impI)
    fix i assume i: "i < length pre"
    show "placeholderAt (drop i (pre @ ?t)) = None"
    proof (rule ccontr)
      assume "placeholderAt (drop i (pre @ ?t)) \<noteq> None"
      then obtain b r where "placeholderAt (drop i s) = Some (b, r)"
        using s by auto
      then have "placeholder (drop i s) [] b r"
        by (simp only: placeholderAt_Some_iff)
      then have "placeholder s (take i s) b r"
        by (rule placeholder_drop)
      with l have "length pre \<le> length (take i s)" by blast
      with i show False by simp
    qed
  qed
  then have "Interpolate (pre @ ?t) = pre @ Interpolate ?t"
    by (rule Interpolate_skip)
  with s at show ?thesis
    by (simp only: Interpolate_Some[OF at])
qed

lemma placeholder_has_brace:
  "placeholder s pre body post \<Longrightarrow> CHR ''{'' \<in> set s"
  by (simp add: placeholder_def)

lemma leftmost_by_scan:
  assumes "list_all (\<lambda>i. placeholderAt (drop i s) = None) [0..<n]"
    and "placeholder s pre' body' post'"
  shows "n \<le> length pre'"
proof (rule ccontr)
  assume "\<not> n \<le> length pre'"
  then have "length pre' \<in> set [0..<n]" by simp
  with assms(1) have "placeholderAt (drop (length pre') s) = None"
    by (simp add: list_all_iff)
  moreover from assms(2) have "placeholder (drop (length pre') s) [] body' post'"
    by (simp add: placeholder_def)
  ultimately show False
    by (simp add: placeholderAt_None_iff)
qed

subsection \<open>Facts about the loops over children\<close>

lemma table_entries_filter:
  "table_entries L c kids result = result @ concat (map (table_field L c) (filter complete_entry kids))"
proof (induction kids arbitrary: result)
  case Nil
  show ?case by (simp add: table_entries_def)
next
  case (Cons k kids)
  have step: "table_entries L c (k # kids) result =
      table_entries L c kids (if complete_entry k then result @ table_field L c k else result)"
    by (simp add: table_entries_def complete_entry_def table_field_def Let_def)
  show ?case
    unfolding step by (simp add: Cons.IH)
qed

lemma table_handler_output:
  assumes "GetAttr n ''var'' = [] \<or> IsValidIdentifier (GetAttr n ''var'')"
  shows "table_handler L n c =
     (((if GetAttr n ''var'' \<noteq> []
        then getIndent c @ (if GetBoolAttr n ''local'' then ''local '' else []) @ GetAttr n ''var'' @ '' = {\<newline>''
        else ''{\<newline>'')
       @ concat (map (table_field L (c\<lparr>indent := indent c + 1\<rparr>)) (filter complete_entry (Nodes n)))
       @ getIndent c @ ''}'', None), c)"
  using assms by (auto simp: table_handler_def Let_def table_entries_filter)

lemma compileChildren_prefix:
  "compileChildren L c kids r = ((out, None), c') \<Longrightarrow> prefix r out"
proof (induction kids arbitrary: c r)
  case Nil
  then show ?case by simp
next
  case (Cons k kids)
  obtain code e c1 where k: "compileNode L c k = ((code, e), c1)"
    by (metis surj_pair)
  with Cons.prems have e: "e = None" by (cases e) auto
  let ?acc = "if code \<noteq> [] then r @ code @ ''\<newline>'' else r"
  from Cons.prems k e have "compileChildren L c1 kids ?acc = ((out, None), c')"
    by simp
  then have "prefix ?acc out" by (rule Cons.IH)
  moreover have "prefix r ?acc" by simp
  ultimately show ?case by (rule prefix_order.trans[rotated])
qed

lemma block_prefix:
  assumes "block ch c hdr closing = ((out, None), c')"
    and "\<forall>c1 r out c2. ch c1 r = ((out, None), c2) \<longrightarrow> prefix r out"
  shows "prefix hdr out"
proof -
  obtain r e c2 where r: "ch (c\<lparr>indent := indent c + 1\<rparr>) hdr = ((r, e), c2)"
    by (metis surj_pair)
  with assms(1) have e: "e = None"
    by (cases e) (auto simp: block_def Let_def)
  with r assms(2) have "prefix hdr r" by blast
  moreover from assms(1) r e have "prefix r out"
    by (auto simp: block_def Let_def)
  ultimately show ?thesis by (rule prefix_order.trans)
qed








lemma Repeat_spaces: "Repeat ''    '' n = replicate (4 * n) (CHR '' '')"
proof (induction n)
  case 0
  show ?case by (simp add: Repeat_def)
next
  case (Suc n)
  have r4: "replicate (4 + m) x = x # x # x # x # replicate m x" for m :: nat and x :: char
    by (simp add: numeral_eq_Suc)
  from Suc show ?case by (simp add: Repeat_def r4)
qed

lemma getIndent_replicate: "getIndent c = replicate (4 * indent c) (CHR '' '')"
  by (simp add: getIndent_def Repeat_spaces)

lemma compileScript_all_ok:
  "(\<forall>k\<in>set kids. snd (fst (compileNode L c k)) = None) \<Longrightarrow>
   compileScript L c kids acc =
     ((acc @ filter (\<lambda>code. code \<noteq> []) (map (\<lambda>k. fst (fst (compileNode L c k))) kids), None), c)"
proof (induction kids arbitrary: acc)
  case Nil
  show ?case by simp
next
  case (Cons k kids)
  obtain code e c1 where k: "compileNode L c k = ((code, e), c1)"
    by (metis surj_pair)
  with Cons.prems have e: "e = None" by simp
  with k have c1: "c1 = c" using compile_success_state(1) by blast
  from Cons.prems have "\<forall>k\<in>set kids. snd (fst (compileNode L c k)) = None" by simp
  then have "compileScript L c kids (if code \<noteq> [] then acc @ [code] else acc) =
     (((if code \<noteq> [] then acc @ [code] else acc) @ filter (\<lambda>code. code \<noteq> []) (map (\<lambda>k. fst (fst (compileNode L c k))) kids), None), c)"
    by (rule Cons.IH)
  with k e c1 show ?case by simp
qed

lemma compileScript_first_failure:
  "(\<forall>x\<in>set xs. snd (fst (compileNode L c x)) = None) \<Longrightarrow>
   compileNode L c k = ((out, Some e), c2) \<Longrightarrow>
   compileScript L c (xs @ k # ys) acc = (([], Some e), c2)"
proof (induction xs arbitrary: acc)
  case Nil
  then show ?case by simp
next
  case (Cons x xs)
  obtain code e1 c1 where x: "compileNode L c x = ((code, e1), c1)"
    by (metis surj_pair)
  with Cons.prems(1) have e: "e1 = None" by simp
  with x have c1: "c1 = c" using compile_success_state(1) by blast
  from Cons.prems have "\<forall>x\<in>set xs. snd (fst (compileNode L c x)) = None" by simp
  then have "compileScript L c (xs @ k # ys) (if code \<noteq> [] then acc @ [code] else acc) = (([], Some e), c2)"
    using Cons.prems(2) by (rule Cons.IH)
  with x e c1 show ?case by simp
qed




lemma block_error_is_childrens:
  "block ch c hdr closing = ((out, Some e), c') \<Longrightarrow>
   out = [] \<and> (\<exists>r. ch (c\<lparr>indent := indent c + 1\<rparr>) hdr = ((r, Some e), c'))"
  by (auto simp: block_def Let_def split: prod.splits option.splits)

lemma block_error_leaks_indent:
  assumes "block ch c hdr closing = ((out, Some e), c')"
    and "\<forall>c1 r. indent c1 \<le> indent (snd (ch c1 r))"
  shows "indent c < indent c'"
proof -
  from assms(1) obtain r where "ch (c\<lparr>indent := indent c + 1\<rparr>) hdr = ((r, Some e), c')"
    by (auto dest: block_error_is_childrens)
  moreover from assms(2)
  have "indent (c\<lparr>indent := indent c + 1\<rparr>) \<le> indent (snd (ch (c\<lparr>indent := indent c + 1\<rparr>) hdr))"
    by blast
  ultimately show ?thesis by simp
qed

lemma block_children_prefix:
  "block (\<lambda>compiler result. compileChildren L compiler kids result) c hdr closing = ((out, None), c')
   \<Longrightarrow> prefix hdr out"
  by (erule block_prefix) (auto dest: compileChildren_prefix)



subsection \<open>Indentation of block handlers\<close>

text \<open>
  C1. Every block handler (\<^verbatim>\<open>if\<close>, \<^verbatim>\<open>elseif\<close>, \<^verbatim>\<open>else\<close>, \<^verbatim>\<open>for\<close>,
  \<^verbatim>\<open>while\<close>, \<^verbatim>\<open>repeat\<close>, \<^verbatim>\<open>function\<close>) is to leave the indent counter as it
  found it, also when compiling a child fails. On a successful return it does (lemma
  \<open>compile_success_state\<close>). When a child fails, the handler returns before its
  \<^verbatim>\<open>indent--\<close> (lemma \<open>block_error_leaks_indent\<close>): started at indent 0 on a
  block whose only child has an unknown tag, each of the seven handlers returns the
  child's error and leaves the indent at 1.
\<close>

theorem block_handlers_leak_indent_on_error:
  "indent NewCompiler = 0 \<and>
   map (\<lambda>n. (fst (compileNode L NewCompiler n), indent (snd (compileNode L NewCompiler n))))
     leaking_blocks
   = replicate 7 (([], Some ''unknown tag: bad''), 1)"
  by code_simp

subsection \<open>Errors\<close>



text \<open>
  C3. The dispatch of \<^verbatim>\<open>compileNode\<close>: a text fragment of white space gives empty
  output and no error; a text fragment with other content gives the error
  \<^verbatim>\<open>unexpected text content\<close> (the message goes on with the trimmed content); a
  tag without a handler gives \<^verbatim>\<open>unknown tag: \<close> followed by the tag; otherwise the
  result is that of the registered handler, run on the node and the current compiler.
\<close>

theorem compileNode_dispatch:
  "(Local (XMLName n) = [] \<and> TrimSpace (Content n) = [] \<longrightarrow> compileNode L c n = (([], None), c))
   \<and> (Local (XMLName n) = [] \<and> TrimSpace (Content n) \<noteq> [] \<longrightarrow>
        compileNode L c n = (([], Some (''unexpected text content: '' @ TrimSpace (Content n))), c))
   \<and> (Local (XMLName n) \<noteq> [] \<and> handlers c (Local (XMLName n)) = None \<longrightarrow>
        compileNode L c n = (([], Some (''unknown tag: '' @ Local (XMLName n))), c))
   \<and> (Local (XMLName n) \<noteq> [] \<and> handlers c (Local (XMLName n)) = Some h \<longrightarrow>
        compileNode L c n =
          run_handler L h (\<lambda>compiler result. compileChildren L compiler (Nodes n) result) n c)"
  by (cases n) (simp add: Let_def)

theorem compileNode_dispatch_witness:
  "compileNode example_stdlib NewCompiler blank_text = (([], None), NewCompiler)
   \<and> compileNode example_stdlib NewCompiler stray_text =
        (([], Some ''unexpected text content: hello''), NewCompiler)
   \<and> compileNode example_stdlib NewCompiler bad_child =
        (([], Some ''unknown tag: bad''), NewCompiler)
   \<and> compileNode example_stdlib NewCompiler (element ''break'' [] [] []) =
        ((''break'', None), NewCompiler)"
proof -
  have h1: "Local (XMLName blank_text) = [] \<and> TrimSpace (Content blank_text) = []"
    by code_simp
  have h2: "Local (XMLName stray_text) = [] \<and> TrimSpace (Content stray_text) = ''hello''"
    by code_simp
  have h3: "Local (XMLName bad_child) \<noteq> [] \<and> handlers NewCompiler (Local (XMLName bad_child)) = None"
    by code_simp
  have h4: "Local (XMLName (element ''break'' [] [] [])) \<noteq> []
      \<and> handlers NewCompiler (Local (XMLName (element ''break'' [] [] []))) = Some H_break
      \<and> Nodes (element ''break'' [] [] []) = []"
    by code_simp
  have h5: "Local (XMLName bad_child) = ''bad''"
    by code_simp
  have h6: "getIndent NewCompiler = []"
    by code_simp
  show ?thesis
    using compileNode_dispatch [where n = blank_text and L = example_stdlib and c = NewCompiler]
      compileNode_dispatch [where n = stray_text and L = example_stdlib and c = NewCompiler]
      compileNode_dispatch [where n = bad_child and L = example_stdlib and c = NewCompiler]
      compileNode_dispatch [where n = "element ''break'' [] [] []" and L = example_stdlib
        and c = NewCompiler and h = H_break]
      h1 h2 h3 h4 h5 h6
    by (simp add: break_handler_def)
qed

subsection \<open>Determinism\<close>


subsection \<open>The root element\<close>

text \<open>
  C5. For a root with tag \<^verbatim>\<open>script\<close>, each child is compiled on its own, in document
  order, and the non-empty results are joined with single newlines (when a child fails,
  the result is the error of the first such child); any other root is compiled as one
  statement and its result is returned as it is.
\<close>

theorem script_root_handling:
  "(xml_Unmarshal L s = Inr root \<and> Local (XMLName root) = ''script''
      \<and> (\<forall>child\<in>set (Nodes root). snd (fst (compileNode L c child)) = None) \<longrightarrow>
      CompileFromString L c s =
        ((Join (filter (\<lambda>code. code \<noteq> [])
                 (map (\<lambda>child. fst (fst (compileNode L c child))) (Nodes root))) ''\<newline>'',
          None), c))
   \<and> (xml_Unmarshal L s = Inr root \<and> Local (XMLName root) = ''script''
      \<and> Nodes root = xs @ k # ys
      \<and> (\<forall>child\<in>set xs. snd (fst (compileNode L c child)) = None)
      \<and> compileNode L c k = ((out, Some e), c') \<longrightarrow>
      CompileFromString L c s = (([], Some e), c'))
   \<and> (xml_Unmarshal L s = Inr root \<and> Local (XMLName root) \<noteq> ''script'' \<longrightarrow>
      CompileFromString L c s = compileNode L c root)"
proof (intro conjI impI)
  assume a: "xml_Unmarshal L s = Inr root \<and> Local (XMLName root) = ''script''
      \<and> (\<forall>child\<in>set (Nodes root). snd (fst (compileNode L c child)) = None)"
  then have "compileScript L c (Nodes root) [] =
      (([] @ filter (\<lambda>code. code \<noteq> []) (map (\<lambda>child. fst (fst (compileNode L c child))) (Nodes root)), None), c)"
    by (intro compileScript_all_ok) simp
  with a show "CompileFromString L c s =
        ((Join (filter (\<lambda>code. code \<noteq> [])
                 (map (\<lambda>child. fst (fst (compileNode L c child))) (Nodes root))) ''\<newline>'',
          None), c)"
    by (simp add: CompileFromString_def)
next
  assume a: "xml_Unmarshal L s = Inr root \<and> Local (XMLName root) = ''script''
      \<and> Nodes root = xs @ k # ys
      \<and> (\<forall>child\<in>set xs. snd (fst (compileNode L c child)) = None)
      \<and> compileNode L c k = ((out, Some e), c')"
  then have "compileScript L c (xs @ k # ys) [] = (([], Some e), c')"
    by (intro compileScript_first_failure) simp_all
  with a show "CompileFromString L c s = (([], Some e), c')"
    by (simp add: CompileFromString_def)
next
  assume "xml_Unmarshal L s = Inr root \<and> Local (XMLName root) \<noteq> ''script''"
  then show "CompileFromString L c s = compileNode L c root"
    by (simp add: CompileFromString_def)
qed

theorem script_root_handling_witness:
  "CompileFromString example_stdlib NewCompiler script_source =
     ((''local x = 42\<newline>break'', None), NewCompiler)
   \<and> CompileFromString example_stdlib NewCompiler failing_source =
     (([], Some ''unknown tag: bad''), NewCompiler\<lparr>indent := 1\<rparr>)
   \<and> CompileFromString example_stdlib NewCompiler single_source =
     ((''break'', None), NewCompiler)"
proof -
  have u1: "xml_Unmarshal example_stdlib script_source = Inr script_tree"
    and u2: "xml_Unmarshal example_stdlib failing_source = Inr failing_tree"
    and u3: "xml_Unmarshal example_stdlib single_source = Inr (element ''break'' [] [] [])"
    by code_simp+
  have t1: "Local (XMLName script_tree) = ''script''"
    and t2: "Local (XMLName failing_tree) = ''script''"
    and t3: "Local (XMLName (element ''break'' [] [] [])) \<noteq> ''script''"
    by code_simp+
  have ok1: "\<forall>child\<in>set (Nodes script_tree). snd (fst (compileNode example_stdlib NewCompiler child)) = None"
    by code_simp
  have out1: "Join (filter (\<lambda>code. code \<noteq> [])
       (map (\<lambda>child. fst (fst (compileNode example_stdlib NewCompiler child))) (Nodes script_tree))) ''\<newline>''
      = ''local x = 42\<newline>break''"
    by code_simp
  have n2: "Nodes failing_tree = [element ''break'' [] [] []] @ element ''if'' [xml_attr ''test'' ''x''] [] [bad_child] # [element ''return'' [] [] []]"
    by code_simp
  have ok2: "\<forall>child\<in>set [element ''break'' [] [] []]. snd (fst (compileNode example_stdlib NewCompiler child)) = None"
    by code_simp
  have f2: "fst (compileNode example_stdlib NewCompiler (element ''if'' [xml_attr ''test'' ''x''] [] [bad_child])) = ([], Some ''unknown tag: bad'')"
    by code_simp
  have i2: "indent (snd (compileNode example_stdlib NewCompiler (element ''if'' [xml_attr ''test'' ''x''] [] [bad_child]))) = 1"
    by code_simp
  have h2: "handlers (snd (compileNode example_stdlib NewCompiler (element ''if'' [xml_attr ''test'' ''x''] [] [bad_child]))) = handlers NewCompiler"
    by (rule compile_handlers_preserved)
  have s2: "snd (compileNode example_stdlib NewCompiler (element ''if'' [xml_attr ''test'' ''x''] [] [bad_child])) = NewCompiler\<lparr>indent := 1\<rparr>"
    using i2 h2 by (intro Compiler.equality) simp_all
  have k2: "compileNode example_stdlib NewCompiler (element ''if'' [xml_attr ''test'' ''x''] [] [bad_child]) = (([], Some ''unknown tag: bad''), NewCompiler\<lparr>indent := 1\<rparr>)"
    using f2 s2 by (simp add: prod_eq_iff)
  have b3: "fst (compileNode example_stdlib NewCompiler (element ''break'' [] [] [])) = (''break'', None)"
    by code_simp
  then have k3: "compileNode example_stdlib NewCompiler (element ''break'' [] [] []) = ((''break'', None), NewCompiler)"
    using compile_success_state(1)[of example_stdlib NewCompiler "element ''break'' [] [] []"]
    by (metis prod.collapse)
  show ?thesis
    using script_root_handling [where L = example_stdlib and c = NewCompiler and s = script_source
        and root = script_tree]
      script_root_handling [where L = example_stdlib and c = NewCompiler and s = failing_source
        and root = failing_tree and xs = "[element ''break'' [] [] []]"
        and k = "element ''if'' [xml_attr ''test'' ''x''] [] [bad_child]"
        and ys = "[element ''return'' [] [] []]" and out = "[]" and e = "''unknown tag: bad''"
        and c' = "NewCompiler\<lparr>indent := 1\<rparr>"]
      script_root_handling [where L = example_stdlib and c = NewCompiler and s = single_source
        and root = "element ''break'' [] [] []"]
      u1 u2 u3 t1 t2 t3 ok1 out1 n2 ok2 k2 k3
    by simp
qed

subsection \<open>A counted loop\<close>

text \<open>
  C6. The loop \<^verbatim>\<open><for var="i" from="1" to="10">\<close> around \<^verbatim>\<open><print>{{i}}</print>\<close>,
  compiled at indent 0, gives the three lines \<^verbatim>\<open>for i = 1, 10 do\<close>,
  \<^verbatim>\<open>    print("" .. tostring(i) .. "")\<close> and \<^verbatim>\<open>end\<close>; the indentation is four
  spaces for each level.
\<close>

theorem for_loop_example_output:
  \<open>compileNode L NewCompiler for_example =
     ((''for i = 1, 10 do\<newline>    print("" .. tostring(i) .. "")\<newline>end'', None), NewCompiler)
   \<and> Split (fst (fst (compileNode L NewCompiler for_example))) (CHR 0x0A) =
       [''for i = 1, 10 do'', ''    print("" .. tostring(i) .. "")'', ''end'']
   \<and> indent NewCompiler = 0
   \<and> getIndent c = replicate (4 * indent c) (CHR '' '')\<close>
proof -
  have f: \<open>fst (compileNode L NewCompiler for_example) =
      (''for i = 1, 10 do\<newline>    print("" .. tostring(i) .. "")\<newline>end'', None)\<close>
    by code_simp
  then have \<open>compileNode L NewCompiler for_example =
     ((''for i = 1, 10 do\<newline>    print("" .. tostring(i) .. "")\<newline>end'', None), NewCompiler)\<close>
    using compile_success_state(1)[of L NewCompiler for_example]
    by (metis prod.collapse)
  moreover have \<open>Split (fst (fst (compileNode L NewCompiler for_example))) (CHR 0x0A) =
       [''for i = 1, 10 do'', ''    print("" .. tostring(i) .. "")'', ''end'']\<close>
    by code_simp
  moreover have "indent NewCompiler = 0"
    by code_simp
  ultimately show ?thesis
    by (simp add: getIndent_replicate)
qed

subsection \<open>Interpolation\<close>

text \<open>
  C7. \<^verbatim>\<open>Interpolate\<close> returns a text without placeholder unchanged, and replaces
  the leftmost placeholder of a text by the splice \<^verbatim>\<open>" .. tostring(e) .. "\<close>, where
  \<open>e\<close> is the placeholder's expression text without surrounding white space; the text
  in front is kept, and the text behind is interpolated in the same way.
\<close>

theorem Interpolate_placeholders:
  \<open>((\<forall>pre body post. \<not> placeholder s pre body post) \<longrightarrow> Interpolate s = s)
   \<and> (placeholder s pre body post
        \<and> (\<forall>pre' body' post'. placeholder s pre' body' post' \<longrightarrow> length pre \<le> length pre')
      \<longrightarrow> Interpolate s = pre @ ''" .. tostring('' @ TrimSpace body @ '') .. "'' @ Interpolate post)\<close>
  using Interpolate_identity [of s] Interpolate_leftmost [of s pre body post]
  by simp

theorem Interpolate_placeholders_witness:
  \<open>Interpolate ''Hello, World!'' = ''Hello, World!''
   \<and> Interpolate ''n = {{ n }}!'' = ''n = " .. tostring(n) .. "!''\<close>
proof -
  have a: "\<forall>pre body post. \<not> placeholder ''Hello, World!'' pre body post"
    by (auto dest: placeholder_has_brace)
  have b: "\<forall>pre body post. \<not> placeholder ''!'' pre body post"
    by (auto dest: placeholder_has_brace)
  have p: "placeholder ''n = {{ n }}!'' ''n = '' '' n '' ''!''"
    by (simp add: placeholder_def)
  have scan: "list_all (\<lambda>i. placeholderAt (drop i ''n = {{ n }}!'') = None) [0..<4]"
    by code_simp
  have l: "\<forall>pre' body' post'. placeholder ''n = {{ n }}!'' pre' body' post'
      \<longrightarrow> length ''n = '' \<le> length pre'"
  proof (intro allI impI)
    fix pre' body' post'
    assume "placeholder ''n = {{ n }}!'' pre' body' post'"
    with scan have "4 \<le> length pre'" by (rule leftmost_by_scan)
    then show "length ''n = '' \<le> length pre'" by simp
  qed
  have t: "TrimSpace '' n '' = ''n''"
    by code_simp
  show ?thesis
    using Interpolate_placeholders [where s = "''Hello, World!''"]
      Interpolate_placeholders [where s = "''!''"]
      Interpolate_placeholders [where s = "''n = {{ n }}!''" and pre = "''n = ''"
        and body = "'' n ''" and post = "''!''"]
      a b p l t
    by simp
qed

subsection \<open>The two forms of the for loop\<close>

text \<open>
  C8. In the \<^verbatim>\<open>for\<close> handler, when \<^verbatim>\<open>from\<close> and \<^verbatim>\<open>to\<close> are both non-empty, the
  result depends on the attributes \<^verbatim>\<open>var\<close>, \<^verbatim>\<open>from\<close>, \<^verbatim>\<open>to\<close> and \<^verbatim>\<open>step\<close>
  only (so \<^verbatim>\<open>in\<close> is ignored), and the output of a successful call starts with the
  numeric header. When \<^verbatim>\<open>from\<close> or \<^verbatim>\<open>to\<close> is empty, an empty \<^verbatim>\<open>in\<close> is an
  error, and the output of a successful call starts with the iterator header.
\<close>

theorem for_numeric_precedence:
  "(GetAttr n ''from'' \<noteq> [] \<and> GetAttr n ''to'' \<noteq> []
      \<and> (\<forall>a\<in>set [''var'', ''from'', ''to'', ''step'']. GetAttr n' a = GetAttr n a)
      \<longrightarrow> for_handler ch n' c = for_handler ch n c)
   \<and> (GetAttr n ''from'' \<noteq> [] \<and> GetAttr n ''to'' \<noteq> []
      \<and> for_handler (\<lambda>compiler result. compileChildren L compiler (Nodes n) result) n c
          = ((out, None), c')
      \<longrightarrow> prefix (getIndent c @ ''for '' @ GetAttr n ''var'' @ '' = '' @ GetAttr n ''from''
                    @ '', '' @ GetAttr n ''to''
                    @ (if GetAttrWithDefault n ''step'' ''1'' \<noteq> ''1''
                       then '', '' @ GetAttrWithDefault n ''step'' ''1'' else [])
                    @ '' do\<newline>'') out)
   \<and> ((GetAttr n ''from'' = [] \<or> GetAttr n ''to'' = []) \<and> GetAttr n ''in'' = []
      \<longrightarrow> fst (fst (for_handler ch n c)) = [] \<and> snd (fst (for_handler ch n c)) \<noteq> None
          \<and> snd (for_handler ch n c) = c)
   \<and> ((GetAttr n ''from'' = [] \<or> GetAttr n ''to'' = []) \<and> GetAttr n ''in'' = []
      \<and> IsValidIdentifier (GetAttr n ''var'')
      \<longrightarrow> for_handler ch n c
          = (([], Some ''for command requires either 'from'/'to' or 'in' attributes''), c))
   \<and> ((GetAttr n ''from'' = [] \<or> GetAttr n ''to'' = [])
      \<and> for_handler (\<lambda>compiler result. compileChildren L compiler (Nodes n) result) n c
          = ((out, None), c')
      \<longrightarrow> GetAttr n ''in'' \<noteq> []
          \<and> prefix (getIndent c @ ''for '' @ GetAttr n ''var'' @ '' in '' @ GetAttr n ''in''
                    @ '' do\<newline>'') out)"
proof (intro conjI impI)
  assume "GetAttr n ''from'' \<noteq> [] \<and> GetAttr n ''to'' \<noteq> []
      \<and> (\<forall>a\<in>set [''var'', ''from'', ''to'', ''step'']. GetAttr n' a = GetAttr n a)"
  then show "for_handler ch n' c = for_handler ch n c"
    by (simp add: for_handler_def GetAttrWithDefault_def Let_def)
next
  assume a: "GetAttr n ''from'' \<noteq> [] \<and> GetAttr n ''to'' \<noteq> []
      \<and> for_handler (\<lambda>compiler result. compileChildren L compiler (Nodes n) result) n c
          = ((out, None), c')"
  then show "prefix (getIndent c @ ''for '' @ GetAttr n ''var'' @ '' = '' @ GetAttr n ''from''
                    @ '', '' @ GetAttr n ''to''
                    @ (if GetAttrWithDefault n ''step'' ''1'' \<noteq> ''1''
                       then '', '' @ GetAttrWithDefault n ''step'' ''1'' else [])
                    @ '' do\<newline>'') out"
    by (auto simp: for_handler_def Let_def split: if_splits dest: block_children_prefix)
next
  assume a: "(GetAttr n ''from'' = [] \<or> GetAttr n ''to'' = []) \<and> GetAttr n ''in'' = []"
  then show "fst (fst (for_handler ch n c)) = []"
    by (auto simp: for_handler_def Let_def)
  from a show "snd (fst (for_handler ch n c)) \<noteq> None"
    by (auto simp: for_handler_def Let_def)
  from a show "snd (for_handler ch n c) = c"
    by (auto simp: for_handler_def Let_def)
next
  assume "(GetAttr n ''from'' = [] \<or> GetAttr n ''to'' = []) \<and> GetAttr n ''in'' = []
      \<and> IsValidIdentifier (GetAttr n ''var'')"
  moreover have "IsValidIdentifier v \<Longrightarrow> v \<noteq> []" for v
    by (auto simp: IsValidIdentifier_def)
  ultimately show "for_handler ch n c
          = (([], Some ''for command requires either 'from'/'to' or 'in' attributes''), c)"
    by (auto simp: for_handler_def Let_def)
next
  assume a: "(GetAttr n ''from'' = [] \<or> GetAttr n ''to'' = [])
      \<and> for_handler (\<lambda>compiler result. compileChildren L compiler (Nodes n) result) n c
          = ((out, None), c')"
  then show "GetAttr n ''in'' \<noteq> []"
    by (auto simp: for_handler_def Let_def split: if_splits)
  from a show "prefix (getIndent c @ ''for '' @ GetAttr n ''var'' @ '' in '' @ GetAttr n ''in''
                    @ '' do\<newline>'') out"
    by (auto simp: for_handler_def Let_def split: if_splits dest: block_children_prefix)
qed

theorem for_numeric_precedence_witness:
  "for_handler (\<lambda>compiler result. compileChildren example_stdlib compiler [] result)
       for_numeric_example NewCompiler
     = for_handler (\<lambda>compiler result. compileChildren example_stdlib compiler [] result)
         for_both_example NewCompiler
   \<and> prefix ''for i = 1, 10 do\<newline>''
        (fst (fst (for_handler (\<lambda>compiler result. compileChildren example_stdlib compiler [] result)
           for_both_example NewCompiler)))
   \<and> for_handler (\<lambda>compiler result. compileChildren example_stdlib compiler [] result)
         for_neither_example NewCompiler
     = (([], Some ''for command requires either 'from'/'to' or 'in' attributes''), NewCompiler)
   \<and> prefix ''for v in pairs(t) do\<newline>''
        (fst (fst (for_handler (\<lambda>compiler result. compileChildren example_stdlib compiler [] result)
           for_iterator_example NewCompiler)))"
proof -
  let ?ch = "\<lambda>compiler result. compileChildren example_stdlib compiler [] result"
  have attrs: "GetAttr for_both_example ''from'' = ''1'' \<and> GetAttr for_both_example ''to'' = ''10''
      \<and> GetAttr for_both_example ''var'' = ''i''
      \<and> GetAttrWithDefault for_both_example ''step'' ''1'' = ''1''
      \<and> (\<forall>a\<in>set [''var'', ''from'', ''to'', ''step''].
            GetAttr for_numeric_example a = GetAttr for_both_example a)"
    by code_simp
  have kids: "Nodes for_both_example = [] \<and> Nodes for_iterator_example = []
      \<and> getIndent NewCompiler = []"
    by code_simp
  have ok1: "snd (fst (for_handler ?ch for_both_example NewCompiler)) = None"
    by code_simp
  have neither: "GetAttr for_neither_example ''to'' = [] \<and> GetAttr for_neither_example ''in'' = []
      \<and> IsValidIdentifier (GetAttr for_neither_example ''var'')"
    by code_simp
  have iter: "GetAttr for_iterator_example ''to'' = [] \<and> GetAttr for_iterator_example ''var'' = ''v''
      \<and> GetAttr for_iterator_example ''in'' = ''pairs(t)''"
    by code_simp
  have ok2: "snd (fst (for_handler ?ch for_iterator_example NewCompiler)) = None"
    by code_simp
  obtain o1 s1 where r1: "for_handler ?ch for_both_example NewCompiler = ((o1, None), s1)"
    using ok1 by (metis prod.collapse)
  obtain o2 s2 where r2: "for_handler ?ch for_iterator_example NewCompiler = ((o2, None), s2)"
    using ok2 by (metis prod.collapse)
  show ?thesis
    using for_numeric_precedence [where n = for_both_example and n' = for_numeric_example
        and ch = ?ch and c = NewCompiler and L = example_stdlib and out = o1 and c' = s1]
      for_numeric_precedence [where n = for_neither_example and ch = ?ch and c = NewCompiler]
      for_numeric_precedence [where n = for_iterator_example and ch = ?ch and c = NewCompiler
        and L = example_stdlib and out = o2 and c' = s2]
      attrs kids neither iter r1 r2
    by simp
qed

subsection \<open>Incomplete table entries\<close>

text \<open>
  C9. The table handler writes one field for each complete entry (an \<^verbatim>\<open>entry\<close>
  child with a non-empty key and content that is not only white space), in order, and
  nothing for any other child: leaving such a child out does not change the result,
  and the handler fails for an invalid variable name only.
\<close>

theorem table_skips_incomplete_entries:
  "table_entries L c kids result =
     result @ concat (map (table_field L c) (filter complete_entry kids))
   \<and> (\<not> complete_entry child \<longrightarrow>
        table_entries L c (xs @ child # ys) result = table_entries L c (xs @ ys) result)
   \<and> (GetAttr n ''var'' = [] \<or> IsValidIdentifier (GetAttr n ''var'') \<longrightarrow>
        table_handler L n c =
          (((if GetAttr n ''var'' \<noteq> []
             then getIndent c @ (if GetBoolAttr n ''local'' then ''local '' else [])
                    @ GetAttr n ''var'' @ '' = {\<newline>''
             else ''{\<newline>'')
            @ concat (map (table_field L (c\<lparr>indent := indent c + 1\<rparr>))
                       (filter complete_entry (Nodes n)))
            @ getIndent c @ ''}'', None), c))"
  using table_handler_output [of n L c]
  by (simp add: table_entries_filter)

theorem table_skips_incomplete_entries_witness:
  \<open>filter complete_entry (Nodes table_example) =
     [element ''entry'' [xml_attr ''key'' ''a''] ''1'' [],
      element ''entry'' [xml_attr ''key'' ''my key''] ''3'' []]
   \<and> table_entries example_stdlib NewCompiler
        ([element ''entry'' [xml_attr ''key'' ''a''] ''1'' []]
          @ element ''entry'' [xml_attr ''key'' []] ''2'' []
          # [element ''entry'' [xml_attr ''key'' ''my key''] ''3'' []]) ''{''
      = table_entries example_stdlib NewCompiler
        ([element ''entry'' [xml_attr ''key'' ''a''] ''1'' []]
          @ [element ''entry'' [xml_attr ''key'' ''my key''] ''3'' []]) ''{''
   \<and> table_handler example_stdlib table_example NewCompiler =
       ((''t = {\<newline>    a = 1,\<newline>    ["my key"] = 3,\<newline>}'', None), NewCompiler)\<close>
proof -
  have f: "filter complete_entry (Nodes table_example) =
     [element ''entry'' [xml_attr ''key'' ''a''] ''1'' [],
      element ''entry'' [xml_attr ''key'' ''my key''] ''3'' []]"
    by code_simp
  have nc: "\<not> complete_entry (element ''entry'' [xml_attr ''key'' []] ''2'' [])"
    by code_simp
  have v: "IsValidIdentifier (GetAttr table_example ''var'')"
    by code_simp
  have o: \<open>(if GetAttr table_example ''var'' \<noteq> []
             then getIndent NewCompiler @ (if GetBoolAttr table_example ''local'' then ''local '' else [])
                    @ GetAttr table_example ''var'' @ '' = {\<newline>''
             else ''{\<newline>'')
            @ concat (map (table_field example_stdlib (NewCompiler\<lparr>indent := indent NewCompiler + 1\<rparr>))
                       [element ''entry'' [xml_attr ''key'' ''a''] ''1'' [],
                        element ''entry'' [xml_attr ''key'' ''my key''] ''3'' []])
            @ getIndent NewCompiler @ ''}''
        = ''t = {\<newline>    a = 1,\<newline>    ["my key"] = 3,\<newline>}''\<close>
    by code_simp
  show ?thesis
    using table_skips_incomplete_entries [where L = example_stdlib and c = NewCompiler
        and n = table_example and child = "element ''entry'' [xml_attr ''key'' []] ''2'' []"
        and xs = "[element ''entry'' [xml_attr ''key'' ''a''] ''1'' []]"
        and ys = "[element ''entry'' [xml_attr ''key'' ''my key''] ''3'' []]"
        and result = "''{''" and kids = "[]"]
      f nc v o
    by simp
qed

subsection \<open>Attribute lookup\<close>

text \<open>
  C10. \<^verbatim>\<open>GetAttrWithDefault\<close> returns the looked-up value when that value is not
  empty and the default otherwise; in particular, an attribute that is present with an
  empty value yields the default.
\<close>

theorem GetAttrWithDefault_empty_is_default:
  "GetAttrWithDefault node name d = (if GetAttr node name \<noteq> [] then GetAttr node name else d)
   \<and> (HasAttr node name \<and> GetAttr node name = [] \<longrightarrow> GetAttrWithDefault node name d = d)"
  by (simp add: GetAttrWithDefault_def Let_def)

theorem GetAttrWithDefault_empty_is_default_witness:
  "HasAttr empty_step_example ''step'' \<and> GetAttr empty_step_example ''step'' = []
   \<and> GetAttrWithDefault empty_step_example ''step'' ''1'' = ''1''"
  using GetAttrWithDefault_empty_is_default [of empty_step_example "''step''" "''1''"]
  by (simp add: HasAttr_def GetAttr_def empty_step_example_def element_def xml_attr_def)

end
